theory Spec2Isabelle
  imports Complex_Main "HOL-Library.Word"
begin

unbundle bit_operations_syntax

section \<open>The Star PRNT command encoder (src/languages/star-prnt.js)\<close>

text \<open>
  The class \<^verbatim>\<open>LanguageStarPrnt\<close> has no fields; each method builds a fresh JavaScript
  array and returns it. A method is embedded as a function from its arguments to the
  returned array; a \<^verbatim>\<open>throw\<close> is the left injection of a sum.

  JavaScript numbers are embedded as \<^typ>\<open>int\<close>: the embedding covers integer arguments
  (in the range where doubles are exact) and leaves \<^verbatim>\<open>NaN\<close>, infinities and fractions
  out. The two divisions of the source (\<^verbatim>\<open>on / 10\<close>, \<^verbatim>\<open>height / 24\<close>) are taken in
  \<^typ>\<open>rat\<close>. The bit operators \<^verbatim>\<open>&\<close>, \<^verbatim>\<open>|\<close>, \<^verbatim>\<open><<\<close>, \<^verbatim>\<open>>>\<close> are the two's-complement
  operations of \<^typ>\<open>int\<close>; each result the source keeps is masked with \<^verbatim>\<open>0xff\<close> or is
  below 256, where the 32-bit truncation of JavaScript makes no difference.
\<close>

subsection \<open>JavaScript values, property lookup and errors\<close>

text \<open>
  \<open>JInherited k\<close> is the value an object literal inherits from \<^verbatim>\<open>Object.prototype\<close>
  under the property name \<open>k\<close>: a built-in function, and under \<^verbatim>\<open>__proto__\<close> the
  prototype object itself.
\<close>

datatype jsval = JUndefined | JNum int | JStr string | JInherited string

datatype error = Error string | RangeError

fun typeof :: "jsval \<Rightarrow> string" where
  "typeof JUndefined = ''undefined''"
| "typeof (JNum n) = ''number''"
| "typeof (JStr s) = ''string''"
| "typeof (JInherited k) = (if k = ''__proto__'' then ''object'' else ''function'')"

text \<open>The property names every object literal inherits from \<^verbatim>\<open>Object.prototype\<close>.\<close>

definition Object_prototype_keys :: "string list" where
  "Object_prototype_keys =
     [''constructor'', ''__defineGetter__'', ''__defineSetter__'', ''hasOwnProperty'',
      ''__lookupGetter__'', ''__lookupSetter__'', ''isPrototypeOf'',
      ''propertyIsEnumerable'', ''toString'', ''valueOf'', ''__proto__'',
      ''toLocaleString'']"

text \<open>
  An object literal with numeric values is the association list of its own properties.
  \<open>get_property obj key\<close> is \<^verbatim>\<open>obj[key]\<close> and \<open>has_property key obj\<close> is
  \<^verbatim>\<open>key in obj\<close>: both look at the own properties first and at the prototype next.
\<close>

definition get_property :: "(string \<times> int) list \<Rightarrow> string \<Rightarrow> jsval" where
  "get_property obj key =
     (case map_of obj key of
        Some v \<Rightarrow> JNum v
      | None \<Rightarrow> if key \<in> set Object_prototype_keys then JInherited key else JUndefined)"

definition has_property :: "string \<Rightarrow> (string \<times> int) list \<Rightarrow> bool" where
  "has_property key obj = (key \<in> set (map fst obj) \<or> key \<in> set Object_prototype_keys)"

text \<open>Decimal notation of an integer, as \<^verbatim>\<open>Number.prototype.toString\<close> gives it.\<close>

fun nat_to_string :: "nat \<Rightarrow> string" where
  "nat_to_string n =
     (if n < 10 then [''0123456789'' ! n]
      else nat_to_string (n div 10) @ [''0123456789'' ! (n mod 10)])"

declare nat_to_string.simps [simp del]

definition Number_toString :: "int \<Rightarrow> string" where
  "Number_toString n =
     (if n < 0 then CHR ''-'' # nat_to_string (nat (- n)) else nat_to_string (nat n))"

text \<open>
  The property key a value is converted to when it is the left operand of \<^verbatim>\<open>in\<close> or an
  index. A built-in function converts to its source text, the prototype object to
  \<^verbatim>\<open>[object Object]\<close>.
\<close>

fun ToPropertyKey :: "jsval \<Rightarrow> string" where
  "ToPropertyKey JUndefined = ''undefined''"
| "ToPropertyKey (JNum n) = Number_toString n"
| "ToPropertyKey (JStr s) = s"
| "ToPropertyKey (JInherited k) =
     (if k = ''__proto__'' then ''[object Object]''
      else ''function '' @ k @ ''() { [native code] }'')"

text \<open>
  \<^verbatim>\<open>CodepageEncoder.encode(value, codepage)\<close> belongs to the package
  \<^verbatim>\<open>codepage-encoder\<close>, outside this repository. The operations that call it take it as
  their first argument \<open>encode\<close>: a function from the text and the codepage name to the
  code units of the returned \<^verbatim>\<open>Uint8Array\<close>. \<open>char_codes\<close> is one such function, used
  where a theorem is evaluated on a concrete text: it gives each character its own code,
  as the package does on ASCII text.
\<close>

type_synonym encoder = "string \<Rightarrow> string \<Rightarrow> int list"

definition char_codes :: encoder where
  "char_codes value codepage = map (\<lambda>c. int (of_char c)) value"

subsection \<open>size\<close>

definition size_cmd :: "int \<Rightarrow> int \<Rightarrow> int list" where
  "size_cmd width height = [0x1b, 0x69, height - 1, width - 1]"

subsection \<open>pulse\<close>

text \<open>\<^verbatim>\<open>Math.round\<close> rounds to the nearest integer, a tie towards plus infinity.\<close>

definition Math_round :: "rat \<Rightarrow> int" where
  "Math_round x = \<lfloor>x + 1 / 2\<rfloor>"

text \<open>An omitted argument (\<^verbatim>\<open>undefined\<close>) is \<open>None\<close>.\<close>

definition pulse :: "int option \<Rightarrow> int option \<Rightarrow> int option \<Rightarrow> int list" where
  "pulse device on off =
     (let device = (case device of None \<Rightarrow> 0 | Some d \<Rightarrow> d);
          on = (case on of None \<Rightarrow> 200 | Some t \<Rightarrow> t);
          off = (case off of None \<Rightarrow> 200 | Some t \<Rightarrow> t);
          on = min 127 (Math_round (of_int on / 10));
          off = min 127 (Math_round (of_int off / 10))
      in [0x1b, 0x07, on AND 0xff, off AND 0xff,
          if device \<noteq> 0 then 0x1a else 0x07])"

subsection \<open>barcode\<close>

definition symbologies :: "(string \<times> int) list" where
  "symbologies =
     [(''upce'', 0x00), (''upca'', 0x01), (''ean8'', 0x02), (''ean13'', 0x03),
      (''code39'', 0x04), (''itf'', 0x05), (''code128'', 0x06), (''code93'', 0x07),
      (''nw-7'', 0x08), (''gs1-128'', 0x09), (''gs1-databar-omni'', 0x0a),
      (''gs1-databar-truncated'', 0x0b), (''gs1-databar-limited'', 0x0c),
      (''gs1-databar-expanded'', 0x0d)]"

text \<open>\<open>height\<close> is pushed as it comes, so it is a \<^typ>\<open>jsval\<close>.\<close>

definition barcode :: "encoder \<Rightarrow> string \<Rightarrow> string \<Rightarrow> jsval \<Rightarrow> error + jsval list" where
  "barcode encode value symbology height =
     (if typeof (get_property symbologies symbology) = ''undefined''
      then Inl (Error ''Symbology not supported by printer'')
      else
        let bytes = encode value ''ascii''
        in Inr ([JNum 0x1b, JNum 0x62,
                 get_property symbologies symbology, JNum 0x01, JNum 0x03, height]
                @ map JNum bytes @ [JNum 0x1e]))"

subsection \<open>qrcode\<close>

definition models :: "(string \<times> int) list" where
  "models = [(''1'', 0x01), (''2'', 0x02)]"

definition errorlevels :: "(string \<times> int) list" where
  "errorlevels = [(''l'', 0x00), (''m'', 0x01), (''q'', 0x02), (''h'', 0x03)]"

text \<open>
  The three checks run in the order of the source; the first that fails throws, and the
  array built so far is dropped with the call. After the \<^verbatim>\<open>typeof size !== 'number'\<close>
  check \<open>size'\<close> is a number, which the \<open>case\<close> on it expresses.
\<close>

definition qrcode :: "encoder \<Rightarrow> string \<Rightarrow> jsval \<Rightarrow> jsval \<Rightarrow> jsval \<Rightarrow> error + jsval list" where
  "qrcode encode value model size' errorlevel =
     (let model = (if typeof model = ''undefined'' then JNum 2 else model) in
      if \<not> has_property (ToPropertyKey model) models
      then Inl (Error ''Model must be 1 or 2'')
      else
        let result = [JNum 0x1b, JNum 0x1d, JNum 0x79, JNum 0x53, JNum 0x30,
                      get_property models (ToPropertyKey model)];
            size' = (if typeof size' = ''undefined'' then JNum 6 else size')
        in case size' of
             JNum n \<Rightarrow>
               if n < 1 \<or> n > 8 then Inl (Error ''Size must be between 1 and 8'')
               else
                 let result = result @ [JNum 0x1b, JNum 0x1d, JNum 0x79, JNum 0x53,
                                        JNum 0x32, size'];
                     errorlevel = (if typeof errorlevel = ''undefined'' then JStr ''m''
                                   else errorlevel)
                 in if \<not> has_property (ToPropertyKey errorlevel) errorlevels
                    then Inl (Error ''Error level must be l, m, q or h'')
                    else
                      let result = result @ [JNum 0x1b, JNum 0x1d, JNum 0x79, JNum 0x53,
                                             JNum 0x31,
                                             get_property errorlevels
                                               (ToPropertyKey errorlevel)];
                          bytes = encode value ''iso8859-1'';
                          length' = int (length bytes);
                          result = result @ [JNum 0x1b, JNum 0x1d, JNum 0x79, JNum 0x44,
                                             JNum 0x31, JNum 0x00,
                                             JNum (length' AND 0xff),
                                             JNum (drop_bit 8 length' AND 0xff)]
                                          @ map JNum bytes;
                          result = result @ [JNum 0x1b, JNum 0x1d, JNum 0x79, JNum 0x50]
                      in Inr result
           | _ \<Rightarrow> Inl (Error ''Size must be a number''))"

subsection \<open>image\<close>

text \<open>
  \<^verbatim>\<open>image.data\<close> is the \<^verbatim>\<open>Uint8ClampedArray\<close> of an \<^verbatim>\<open>ImageData\<close>: four bytes (red, green,
  blue, alpha) for each pixel, row after row.
\<close>

type_synonym uint8 = "8 word"

record ImageData =
  data :: "uint8 list"

text \<open>
  Reading a typed array outside its bounds gives \<^verbatim>\<open>undefined\<close> (here \<open>None\<close>), writing
  outside them does nothing, and a \<^verbatim>\<open>Uint8Array\<close> keeps a written number modulo 256.
  \<^verbatim>\<open>new Uint8Array(n)\<close> is \<open>n\<close> zero bytes, and throws a \<^verbatim>\<open>RangeError\<close> for a negative
  \<open>n\<close>.
\<close>

definition typed_array_get :: "'a list \<Rightarrow> int \<Rightarrow> 'a option" where
  "typed_array_get a i = (if 0 \<le> i \<and> i < int (length a) then Some (a ! nat i) else None)"

definition typed_array_set :: "int list \<Rightarrow> int \<Rightarrow> int \<Rightarrow> int list" where
  "typed_array_set a i v =
     (if 0 \<le> i \<and> i < int (length a) then a[nat i := v mod 256] else a)"

definition new_Uint8Array :: "int \<Rightarrow> error + int list" where
  "new_Uint8Array n = (if n < 0 then Inl RangeError else Inr (replicate (nat n) 0))"

text \<open>
  The source reads
  \<^verbatim>\<open>typeof image.data[i] === 'undefined' || image.data[i] > 0 ? 0 : 1\<close>, where \<^verbatim>\<open>||\<close>
  binds tighter than \<^verbatim>\<open>? :\<close>: the result is 0 when the read is \<^verbatim>\<open>undefined\<close> or the byte
  is above 0, and 1 otherwise.
\<close>

definition getPixel :: "ImageData \<Rightarrow> int \<Rightarrow> int \<Rightarrow> int \<Rightarrow> int" where
  "getPixel img width x y =
     (case typed_array_get (data img) (((width * y) + x) * 4) of
        None \<Rightarrow> 0
      | Some v \<Rightarrow> if v > 0 then 0 else 1)"

text \<open>
  The inner loop \<^verbatim>\<open>for (let x = 0; x < width; x++)\<close>, from the current \<open>x\<close> and the
  current contents of \<open>bytes\<close>.
\<close>

function column_loop :: "ImageData \<Rightarrow> int \<Rightarrow> int \<Rightarrow> int \<Rightarrow> int list \<Rightarrow> int list" where
  "column_loop img width y x bytes =
     (if x < width then
        let i = x * 3;
            bytes = typed_array_set bytes i
              (push_bit 7 (getPixel img width x (y + 0)) OR
               push_bit 6 (getPixel img width x (y + 1)) OR
               push_bit 5 (getPixel img width x (y + 2)) OR
               push_bit 4 (getPixel img width x (y + 3)) OR
               push_bit 3 (getPixel img width x (y + 4)) OR
               push_bit 2 (getPixel img width x (y + 5)) OR
               push_bit 1 (getPixel img width x (y + 6)) OR
               getPixel img width x (y + 7));
            bytes = typed_array_set bytes (i + 1)
              (push_bit 7 (getPixel img width x (y + 8)) OR
               push_bit 6 (getPixel img width x (y + 9)) OR
               push_bit 5 (getPixel img width x (y + 10)) OR
               push_bit 4 (getPixel img width x (y + 11)) OR
               push_bit 3 (getPixel img width x (y + 12)) OR
               push_bit 2 (getPixel img width x (y + 13)) OR
               push_bit 1 (getPixel img width x (y + 14)) OR
               getPixel img width x (y + 15));
            bytes = typed_array_set bytes (i + 2)
              (push_bit 7 (getPixel img width x (y + 16)) OR
               push_bit 6 (getPixel img width x (y + 17)) OR
               push_bit 5 (getPixel img width x (y + 18)) OR
               push_bit 4 (getPixel img width x (y + 19)) OR
               push_bit 3 (getPixel img width x (y + 20)) OR
               push_bit 2 (getPixel img width x (y + 21)) OR
               push_bit 1 (getPixel img width x (y + 22)) OR
               getPixel img width x (y + 23))
        in column_loop img width y (x + 1) bytes
      else bytes)"
  by pat_completeness auto
termination
  by (relation "measure (\<lambda>(img, width, y, x, bytes). nat (width - x))") auto

declare column_loop.simps [simp del]

text \<open>
  The outer loop \<^verbatim>\<open>for (let s = 0; s < height / 24; s++)\<close>, from the current \<open>s\<close> and the
  current \<open>result\<close>. Each round allocates its buffer first, which is where a negative
  width throws.
\<close>

function band_loop :: "ImageData \<Rightarrow> int \<Rightarrow> int \<Rightarrow> int \<Rightarrow> int list \<Rightarrow> error + int list" where
  "band_loop img width height s result =
     (if of_int s < (of_int height / 24 :: rat) then
        let y = s * 24 in
        case new_Uint8Array (width * 3) of
          Inl e \<Rightarrow> Inl e
        | Inr bytes \<Rightarrow>
            let bytes = column_loop img width y 0 bytes;
                result = result @ [0x1b, 0x58, width AND 0xff, drop_bit 8 width AND 0xff]
                           @ bytes @ [0x0a, 0x0d]
            in band_loop img width height (s + 1) result
      else Inr result)"
  by pat_completeness auto
termination
  by (relation "measure (\<lambda>(img, width, height, s, result). nat (height - 24 * s))") auto

declare band_loop.simps [simp del]

text \<open>\<open>mode\<close> is not used.\<close>

definition image_cmd :: "ImageData \<Rightarrow> int \<Rightarrow> int \<Rightarrow> jsval \<Rightarrow> error + int list" where
  "image_cmd img width height mode =
     (let result = [0x1b, 0x30] in
      case band_loop img width height 0 result of
        Inl e \<Rightarrow> Inl e
      | Inr result \<Rightarrow> Inr (result @ [0x1b, 0x7a, 0x01]))"

section \<open>The byte sequences in the words of the specification\<close>

text \<open>
  The definitions of this section follow the specification, not the source; the
  theorems below compare the source with them.

  The five sub-commands of a QR code, in order: model, size, error level, store data
  (with the length of the payload in two bytes, low byte first) and print.
\<close>

definition qrcode_stages :: "int \<Rightarrow> int \<Rightarrow> int \<Rightarrow> int list \<Rightarrow> int list" where
  "qrcode_stages m s c payload =
     [0x1b, 0x1d, 0x79, 0x53, 0x30, m]
     @ [0x1b, 0x1d, 0x79, 0x53, 0x32, s]
     @ [0x1b, 0x1d, 0x79, 0x53, 0x31, c]
     @ ([0x1b, 0x1d, 0x79, 0x44, 0x31]
        @ [0x00, int (length payload) mod 256, int (length payload) div 256 mod 256]
        @ payload)
     @ [0x1b, 0x1d, 0x79, 0x50]"

text \<open>
  A band is 24 rows high. One byte packs 8 rows of a column from row \<open>y\<close> downwards, the
  topmost row in the most significant bit; a column of a band is three such bytes; the
  sub-command of band \<open>s\<close> is the escape marker, the opcode, the width in two bytes (low
  byte first), the columns from left to right, and the line feed and carriage return
  bytes \<open>0x0a 0x0d\<close>. \<open>band_count height\<close> is the number of bands: the integers \<open>s\<close>
  from 0 with \<open>24 * s < height\<close>.
\<close>

definition band_byte :: "ImageData \<Rightarrow> int \<Rightarrow> int \<Rightarrow> int \<Rightarrow> int" where
  "band_byte img width x y =
     128 * getPixel img width x y + 64 * getPixel img width x (y + 1)
     + 32 * getPixel img width x (y + 2) + 16 * getPixel img width x (y + 3)
     + 8 * getPixel img width x (y + 4) + 4 * getPixel img width x (y + 5)
     + 2 * getPixel img width x (y + 6) + getPixel img width x (y + 7)"

definition band_column :: "ImageData \<Rightarrow> int \<Rightarrow> int \<Rightarrow> int \<Rightarrow> int list" where
  "band_column img width y x =
     [band_byte img width x y, band_byte img width x (y + 8), band_byte img width x (y + 16)]"

definition band_command :: "ImageData \<Rightarrow> int \<Rightarrow> int \<Rightarrow> int list" where
  "band_command img width s =
     [0x1b, 0x58, width mod 256, width div 256 mod 256]
     @ concat (map (\<lambda>x. band_column img width (24 * s) (int x)) [0..<nat width])
     @ [0x0a, 0x0d]"

definition band_count :: "int \<Rightarrow> nat" where
  "band_count height = nat ((height + 23) div 24)"

text \<open>A buffer of one column and 24 rows of opaque black pixels.\<close>

definition black_1x24 :: ImageData where
  "black_1x24 = \<lparr>data = concat (replicate 24 [0, 0, 0, 255])\<rparr>"

section \<open>Properties\<close>

subsection \<open>Arithmetic of the source operators\<close>

lemma Math_round_div10: "Math_round (of_int n / 10) = (n + 5) div 10"
proof -
  have "(of_int n / 10 + 1 / 2 :: rat) = of_int (n + 5) / of_int 10" by simp
  then show ?thesis unfolding Math_round_def by (simp only: floor_divide_of_int_eq)
qed

lemma and_0xff: "(x::int) AND 0xff = x mod 256"
  using take_bit_eq_mask [of 8 x] by (simp add: take_bit_eq_mod mask_numeral)

subsection \<open>size\<close>

text \<open>
  C8. For every width and height, \<open>size(width, height)\<close> is the escape byte, \<open>0x69\<close>,
  then \<open>height - 1\<close> and then \<open>width - 1\<close>: height before width, the reverse of the
  parameter order. Neither value is validated or coerced (a width of 0 gives \<open>-1\<close>, a
  height of 300 gives 299), and \<open>size(2, 3)\<close> is \<open>[0x1b, 0x69, 2, 1]\<close>.
\<close>

theorem size_height_before_width:
  "size_cmd width height = [0x1b, 0x69, height - 1, width - 1]
   \<and> size_cmd width height ! 2 = height - 1
   \<and> size_cmd width height ! 3 = width - 1
   \<and> size_cmd 2 3 = [0x1b, 0x69, 2, 1]
   \<and> size_cmd 0 300 = [0x1b, 0x69, 299, - 1]"
  by (simp add: size_cmd_def)

subsection \<open>pulse\<close>

lemma pulse_bytes:
  "pulse (Some d) (Some t1) (Some t2) =
     [0x1b, 0x07, min 127 ((t1 + 5) div 10) mod 256, min 127 ((t2 + 5) div 10) mod 256,
      if d = 0 then 0x07 else 0x1a]"
  by (simp add: pulse_def Math_round_div10 and_0xff)

lemma pulse_defaults:
  "pulse device on off =
     pulse (Some (case device of None \<Rightarrow> 0 | Some d \<Rightarrow> d))
           (Some (case on of None \<Rightarrow> 200 | Some t \<Rightarrow> t))
           (Some (case off of None \<Rightarrow> 200 | Some t \<Rightarrow> t))"
  by (simp add: pulse_def)

text \<open>
  C7. \<open>pulse(device, on, off)\<close> takes 0, 200 and 200 for the arguments left out. Each of
  \<open>on\<close> and \<open>off\<close> is divided by 10 and rounded to the nearest integer (which is
  \<open>(t + 5) div 10\<close>, at most 5 away from \<open>t\<close> after scaling back), then capped at 127
  with \<open>min\<close>; the byte sent is that value masked with \<open>0xff\<close>, which changes nothing
  from \<open>t = -5\<close> upwards. From 1265 upwards the byte is 127 (a cap, no wrap-around), so
  \<open>pulse(0, 2000, 2000)\<close> has both timing bytes 127. The last byte is \<open>0x07\<close> for
  device 0 and \<open>0x1a\<close> for any other device.
\<close>

theorem pulse_clamp:
  "pulse None None None = pulse (Some 0) (Some 200) (Some 200)
   \<and> pulse device on off =
       pulse (Some (case device of None \<Rightarrow> 0 | Some d \<Rightarrow> d))
             (Some (case on of None \<Rightarrow> 200 | Some t \<Rightarrow> t))
             (Some (case off of None \<Rightarrow> 200 | Some t \<Rightarrow> t))
   \<and> Math_round (of_int t1 / 10) = (t1 + 5) div 10
   \<and> \<bar>10 * Math_round (of_int t1 / 10) - t1\<bar> \<le> 5
   \<and> pulse (Some d) (Some t1) (Some t2) =
       [0x1b, 0x07,
        min 127 (Math_round (of_int t1 / 10)) mod 256,
        min 127 (Math_round (of_int t2 / 10)) mod 256,
        if d = 0 then 0x07 else 0x1a]
   \<and> (- 5 \<le> t1 \<and> - 5 \<le> t2 \<longrightarrow>
        pulse (Some d) (Some t1) (Some t2) =
          [0x1b, 0x07, min 127 ((t1 + 5) div 10), min 127 ((t2 + 5) div 10),
           if d = 0 then 0x07 else 0x1a])
   \<and> (1265 \<le> t1 \<and> 1265 \<le> t2 \<longrightarrow>
        pulse (Some d) (Some t1) (Some t2) = [0x1b, 0x07, 127, 127, if d = 0 then 0x07 else 0x1a])
   \<and> pulse (Some 0) (Some 2000) (Some 2000) = [0x1b, 0x07, 127, 127, 0x07]"
proof -
  have nonneg: "min 127 ((t + 5) div 10) mod 256 = min 127 ((t + 5) div 10)"
    if "- 5 \<le> t" for t :: int
  proof -
    have "0 \<le> (t + 5) div 10" using that by (simp add: pos_imp_zdiv_nonneg_iff)
    then show ?thesis by (simp add: min_def)
  qed
  have cap: "min 127 ((t + 5) div 10) = 127" if "1265 \<le> t" for t :: int
  proof -
    have "127 \<le> (t + 5) div 10" using that by linarith
    then show ?thesis by simp
  qed
  have near: "\<bar>10 * ((t1 + 5) div 10) - t1\<bar> \<le> 5" by linarith
  show ?thesis
    using near by (simp add: pulse_bytes pulse_defaults [of None None None] pulse_defaults [of device on off] Math_round_div10 nonneg cap)
qed

theorem pulse_clamp_witness:
  "(- 5 \<le> (1270::int) \<and> - 5 \<le> (2000::int)) \<and> (1265 \<le> (1270::int) \<and> 1265 \<le> (2000::int))
   \<and> pulse (Some 1) (Some 1270) (Some 2000) = [0x1b, 0x07, 127, 127, 0x1a]
   \<and> pulse (Some 0) (Some 14) (Some 15) = [0x1b, 0x07, 1, 2, 0x07]"
  using pulse_clamp [of None None None 1270 1 2000] pulse_clamp [of None None None 14 0 15]
  by (simp add: Math_round_def)

subsection \<open>barcode\<close>

lemma distinct_symbologies: "distinct (map fst symbologies)"
  by (simp add: symbologies_def)

lemma get_property_own:
  "distinct (map fst obj) \<Longrightarrow> (key, v) \<in> set obj \<Longrightarrow> get_property obj key = JNum v"
  by (simp add: get_property_def)

lemma barcode_supported:
  assumes "(symbology, code) \<in> set symbologies"
  shows "barcode encode value symbology height =
           Inr ([JNum 0x1b, JNum 0x62, JNum code, JNum 0x01, JNum 0x03, height]
                @ map JNum (encode value ''ascii'') @ [JNum 0x1e])"
  using get_property_own [OF distinct_symbologies assms] by (simp add: barcode_def)

lemma typeof_undefined_iff: "typeof v = ''undefined'' \<longleftrightarrow> v = JUndefined"
  by (cases v) simp_all

lemma get_property_undefined_iff:
  "get_property obj key = JUndefined
   \<longleftrightarrow> key \<notin> set (map fst obj) \<and> key \<notin> set Object_prototype_keys"
proof (cases "map_of obj key")
  case None
  then have "key \<notin> set (map fst obj)" by (simp add: map_of_eq_None_iff)
  with None show ?thesis by (simp add: get_property_def)
next
  case (Some v)
  then have "key \<in> set (map fst obj)" by (metis map_of_eq_None_iff option.distinct(1) set_map)
  with Some show ?thesis by (simp add: get_property_def)
qed

lemma barcode_throws_iff:
  "barcode encode value symbology height = Inl (Error ''Symbology not supported by printer'')
   \<longleftrightarrow> symbology \<notin> set (map fst symbologies) \<and> symbology \<notin> set Object_prototype_keys"
  by (simp add: barcode_def Let_def typeof_undefined_iff get_property_undefined_iff)

text \<open>
  C3. The table of symbologies has 14 entries with distinct names. For each of them, every
  value and every height, \<open>barcode\<close> returns: the escape marker \<open>0x1b 0x62\<close>, the code of
  the symbology, the two framing bytes \<open>0x01 0x03\<close>, the height as it was passed, the
  bytes of the value in the \<open>ascii\<close> codepage, and the terminator \<open>0x1e\<close>. The terminator
  is there when the value encodes to no bytes, too.
\<close>

theorem barcode_frame:
  "length symbologies = 14 \<and> distinct (map fst symbologies)
   \<and> ((symbology, code) \<in> set symbologies \<longrightarrow>
        barcode encode value symbology height =
          Inr ([JNum 0x1b, JNum 0x62, JNum code, JNum 0x01, JNum 0x03, height]
               @ map JNum (encode value ''ascii'') @ [JNum 0x1e]))
   \<and> ((symbology, code) \<in> set symbologies \<and> encode value ''ascii'' = [] \<longrightarrow>
        barcode encode value symbology height =
          Inr [JNum 0x1b, JNum 0x62, JNum code, JNum 0x01, JNum 0x03, height, JNum 0x1e])"
  using barcode_supported [of symbology code encode "value" height]
  by (simp add: distinct_symbologies) (simp add: symbologies_def)

theorem barcode_frame_witness:
  "(''code128'', 6) \<in> set symbologies
   \<and> barcode char_codes ''123'' ''code128'' (JNum 40) =
       Inr [JNum 0x1b, JNum 0x62, JNum 6, JNum 0x01, JNum 0x03, JNum 40,
            JNum 49, JNum 50, JNum 51, JNum 0x1e]
   \<and> char_codes [] ''ascii'' = []
   \<and> barcode char_codes [] ''code128'' (JNum 40) =
       Inr [JNum 0x1b, JNum 0x62, JNum 6, JNum 0x01, JNum 0x03, JNum 40, JNum 0x1e]"
  using barcode_frame [of "''code128''" 6 char_codes "''123''" "JNum 40"]
    barcode_frame [of "''code128''" 6 char_codes "[]" "JNum 40"]
  by (simp add: symbologies_def char_codes_def)

text \<open>
  C5. The claim is that every symbology name outside the 14 of the table makes \<open>barcode\<close>
  throw. The check of the source is \<^verbatim>\<open>typeof symbologies[symbology] === 'undefined'\<close>, and
  the lookup reaches the properties inherited from \<^verbatim>\<open>Object.prototype\<close>: for the name
  \<open>toString\<close>, which is not in the table, nothing is thrown, and the array returned has
  the inherited function in the place of the symbology code. (\<open>barcode_throws_iff\<close>
  above gives the names that do throw.)
\<close>

theorem barcode_inherited_symbology:
  "''toString'' \<notin> set (map fst symbologies)
   \<and> barcode char_codes ''123'' ''toString'' (JNum 40) =
       Inr [JNum 0x1b, JNum 0x62, JInherited ''toString'', JNum 0x01, JNum 0x03, JNum 40,
            JNum 49, JNum 50, JNum 51, JNum 0x1e]"
  by (simp add: barcode_def get_property_def symbologies_def Object_prototype_keys_def
      char_codes_def)

subsection \<open>qrcode\<close>

lemma Number_toString_1: "Number_toString 1 = ''1''"
  by (simp add: Number_toString_def nat_to_string.simps)

lemma Number_toString_2: "Number_toString 2 = ''2''"
  by (simp add: Number_toString_def nat_to_string.simps)

lemma qrcode_defaults:
  "qrcode encode value model size' errorlevel =
     qrcode encode value (if model = JUndefined then JNum 2 else model)
       (if size' = JUndefined then JNum 6 else size')
       (if errorlevel = JUndefined then JStr ''m'' else errorlevel)"
  by (simp add: qrcode_def typeof_undefined_iff)

lemma qrcode_valid:
  assumes "m = 1 \<or> m = 2" and "1 \<le> s" and "s \<le> 8" and "(e, c) \<in> set errorlevels"
  shows "qrcode encode value (JNum m) (JNum s) (JStr e) =
           Inr (map JNum (qrcode_stages m s c (encode value ''iso8859-1'')))"
proof -
  have m: "has_property (Number_toString m) models"
          "get_property models (Number_toString m) = JNum m"
    using assms(1)
    by (auto simp: has_property_def get_property_def models_def Number_toString_1
        Number_toString_2)
  have e: "has_property e errorlevels" "get_property errorlevels e = JNum c"
    using assms(4) by (auto simp: has_property_def get_property_def errorlevels_def)
  show ?thesis
    using assms(2,3)
    by (simp add: qrcode_def m e Let_def qrcode_stages_def and_0xff drop_bit_eq_div)
qed

text \<open>
  C2. \<open>qrcode\<close> with model, size and error level left out is \<open>qrcode\<close> with model 2,
  size 6 and error level \<open>m\<close>, and each argument left out takes its default on its own.
  For model 1 or 2, a size from 1 to 8 and an error level among \<open>l\<close>, \<open>m\<close>, \<open>q\<close>, \<open>h\<close>
  (of code \<open>c\<close>), the array returned is the five sub-commands of \<open>qrcode_stages\<close> in
  their order: model, size, error level, store data with body
  \<open>[0x00, lengthLow, lengthHigh]\<close> and the payload in the \<open>iso8859-1\<close> codepage, and print.
  The two length bytes (at positions 24 and 25) are the length of the payload, low byte
  first, for every payload shorter than 65536 bytes.
\<close>

theorem qrcode_five_stage:
  "qrcode encode value JUndefined JUndefined JUndefined =
     qrcode encode value (JNum 2) (JNum 6) (JStr ''m'')
   \<and> qrcode encode value model size' errorlevel =
       qrcode encode value (if model = JUndefined then JNum 2 else model)
         (if size' = JUndefined then JNum 6 else size')
         (if errorlevel = JUndefined then JStr ''m'' else errorlevel)
   \<and> ((m = 1 \<or> m = 2) \<and> 1 \<le> s \<and> s \<le> 8 \<and> (e, c) \<in> set errorlevels \<longrightarrow>
        qrcode encode value (JNum m) (JNum s) (JStr e) =
          Inr (map JNum (qrcode_stages m s c (encode value ''iso8859-1''))))
   \<and> (length payload < 65536 \<longrightarrow>
        qrcode_stages m s c payload ! 24 + 256 * qrcode_stages m s c payload ! 25
          = int (length payload))"
proof -
  have len: "int (length payload) mod 256 + 256 * (int (length payload) div 256 mod 256)
               = int (length payload)" if "length payload < 65536"
    using that by (simp add: div_pos_pos_trivial mod_pos_pos_trivial) 
  show ?thesis
    using qrcode_valid [of m s e c encode "value"]
      qrcode_defaults [of encode "value" JUndefined JUndefined JUndefined]
      qrcode_defaults [of encode "value" model size' errorlevel] len
    by (simp add: qrcode_stages_def)
qed

theorem qrcode_five_stage_witness:
  "((2::int) = 1 \<or> (2::int) = 2) \<and> (1::int) \<le> 6 \<and> (6::int) \<le> 8
   \<and> (''m'', 1) \<in> set errorlevels
   \<and> length (char_codes ''TEST'' ''iso8859-1'') < 65536
   \<and> qrcode char_codes ''TEST'' JUndefined JUndefined JUndefined =
       Inr (map JNum
         [0x1b, 0x1d, 0x79, 0x53, 0x30, 2,
          0x1b, 0x1d, 0x79, 0x53, 0x32, 6,
          0x1b, 0x1d, 0x79, 0x53, 0x31, 1,
          0x1b, 0x1d, 0x79, 0x44, 0x31, 0x00, 4, 0, 84, 69, 83, 84,
          0x1b, 0x1d, 0x79, 0x50])"
  using qrcode_five_stage [of char_codes "''TEST''" JUndefined JUndefined JUndefined 2 6 "''m''" 1
      "char_codes ''TEST'' ''iso8859-1''"]
  by (simp add: errorlevels_def qrcode_stages_def char_codes_def)

text \<open>The inputs on which \<open>qrcode\<close> throws, for a numeric model.\<close>

lemma nat_to_string_digit: "n < 10 \<Longrightarrow> nat_to_string n = [''0123456789'' ! n]"
  by (subst nat_to_string.simps) simp

lemma nat_to_string_nonempty: "nat_to_string n \<noteq> []"
  by (subst nat_to_string.simps) simp

lemma nat_to_string_long: "10 \<le> n \<Longrightarrow> 2 \<le> length (nat_to_string n)"
  using nat_to_string_nonempty [of "n div 10"]
  by (subst nat_to_string.simps) (simp add: Suc_le_eq)

lemma nat_to_string_last: "last (nat_to_string n) \<in> set ''0123456789''"
proof -
  have "n mod 10 < 10" by simp
  then have "''0123456789'' ! (n mod 10) \<in> set ''0123456789''" by (intro nth_mem) simp
  moreover have "last (nat_to_string n) = ''0123456789'' ! (n mod 10)"
    by (subst nat_to_string.simps) simp
  ultimately show ?thesis by simp
qed

lemma Number_toString_last: "last (Number_toString n) \<in> set ''0123456789''"
  using nat_to_string_last [of "nat n"] nat_to_string_last [of "nat (- n)"]
    nat_to_string_nonempty [of "nat (- n)"]
  by (simp add: Number_toString_def)

lemma Number_toString_not_inherited: "Number_toString n \<notin> set Object_prototype_keys"
proof
  assume "Number_toString n \<in> set Object_prototype_keys"
  then have "last (Number_toString n) \<notin> set ''0123456789''"
    unfolding Object_prototype_keys_def by auto
  then show False using Number_toString_last [of n] by simp
qed

lemma Number_toString_model:
  assumes "Number_toString n = ''1'' \<or> Number_toString n = ''2''"
  shows "n = 1 \<or> n = 2"
proof -
  have nonneg: "0 \<le> n"
  proof (rule ccontr)
    assume "\<not> 0 \<le> n"
    then have "hd (Number_toString n) = CHR ''-''" by (simp add: Number_toString_def)
    then show False using assms by auto
  qed
  then have eq: "Number_toString n = nat_to_string (nat n)" by (simp add: Number_toString_def)
  have small: "nat n < 10"
  proof (rule ccontr)
    assume "\<not> nat n < 10"
    then have "2 \<le> length (nat_to_string (nat n))" by (intro nat_to_string_long) simp
    then show False using assms eq by auto
  qed
  then have "nat n \<in> {0, 1, 2, 3, 4, 5, 6, 7, 8, 9}" by (simp add: less_Suc_eq eval_nat_numeral)
  then have "nat n = 1 \<or> nat n = 2"
    using assms small unfolding eq by (auto simp: nat_to_string_digit)
  then show ?thesis by linarith
qed

lemma has_property_models_iff:
  "has_property (Number_toString m) models \<longleftrightarrow> m = 1 \<or> m = 2"
  using Number_toString_model [of m] Number_toString_not_inherited [of m]
  by (auto simp: has_property_def models_def Number_toString_1 Number_toString_2)

lemma qrcode_model_error:
  assumes "m \<noteq> 1" and "m \<noteq> 2"
  shows "qrcode encode value (JNum m) size' errorlevel = Inl (Error ''Model must be 1 or 2'')"
  using assms by (simp add: qrcode_def has_property_models_iff)

lemma qrcode_size_type_error:
  assumes "m = 1 \<or> m = 2"
  shows "qrcode encode value (JNum m) (JStr t) errorlevel = Inl (Error ''Size must be a number'')"
  using assms by (simp add: qrcode_def has_property_models_iff Let_def)

lemma qrcode_size_range_error:
  assumes "m = 1 \<or> m = 2" and "n < 1 \<or> 8 < n"
  shows "qrcode encode value (JNum m) (JNum n) errorlevel =
           Inl (Error ''Size must be between 1 and 8'')"
  using assms by (simp add: qrcode_def has_property_models_iff Let_def)

lemma qrcode_errorlevel_error:
  assumes "m = 1 \<or> m = 2" and "1 \<le> n" and "n \<le> 8"
    and "e \<notin> set (map fst errorlevels)" and "e \<notin> set Object_prototype_keys"
  shows "qrcode encode value (JNum m) (JNum n) (JStr e) =
           Inl (Error ''Error level must be l, m, q or h'')"
proof -
  have "\<not> has_property e errorlevels" using assms(4,5) by (simp add: has_property_def)
  then show ?thesis
    using assms(1,2,3) by (simp add: qrcode_def has_property_models_iff Let_def)
qed

text \<open>
  C4. The claim is that \<open>qrcode\<close> throws whenever the error level is none of \<open>l\<close>,
  \<open>m\<close>, \<open>q\<close>, \<open>h\<close>. The check of the source is \<^verbatim>\<open>errorlevel in errorlevels\<close>, and
  \<^verbatim>\<open>in\<close> holds for the property names inherited from \<^verbatim>\<open>Object.prototype\<close> as well: for
  the error level \<open>toString\<close>, which is not in the table, nothing is thrown, and the array
  returned has the inherited function in the place of the error-level code. (The four
  lemmas above give the inputs that do throw.)
\<close>

theorem qrcode_inherited_errorlevel:
  "''toString'' \<notin> set (map fst errorlevels)
   \<and> qrcode char_codes ''TEST'' (JNum 2) (JNum 6) (JStr ''toString'') =
       Inr [JNum 0x1b, JNum 0x1d, JNum 0x79, JNum 0x53, JNum 0x30, JNum 2,
            JNum 0x1b, JNum 0x1d, JNum 0x79, JNum 0x53, JNum 0x32, JNum 6,
            JNum 0x1b, JNum 0x1d, JNum 0x79, JNum 0x53, JNum 0x31, JInherited ''toString'',
            JNum 0x1b, JNum 0x1d, JNum 0x79, JNum 0x44, JNum 0x31, JNum 0x00,
            JNum 4, JNum 0, JNum 84, JNum 69, JNum 83, JNum 84,
            JNum 0x1b, JNum 0x1d, JNum 0x79, JNum 0x50]"
  by (simp add: qrcode_def Let_def has_property_def get_property_def models_def
      errorlevels_def Object_prototype_keys_def Number_toString_2 char_codes_def)

subsection \<open>image\<close>

lemma getPixel_cases: "getPixel img width x y = 0 \<or> getPixel img width x y = 1"
  by (simp add: getPixel_def split: option.splits)

lemma or_shift_bits:
  assumes "a = 0 \<or> a = 1" "b = 0 \<or> b = 1" "c = 0 \<or> c = 1" "d = 0 \<or> d = 1"
    "e = 0 \<or> e = 1" "f = 0 \<or> f = 1" "g = 0 \<or> g = 1" "h = 0 \<or> h = 1"
  shows "push_bit 7 a OR push_bit 6 b OR push_bit 5 c OR push_bit 4 d OR
         push_bit 3 e OR push_bit 2 f OR push_bit 1 g OR h
         = 128 * a + 64 * b + 32 * c + 16 * d + 8 * e + 4 * f + 2 * g + (h::int)"
  using assms by (elim disjE) simp_all

lemma band_byte_range: "0 \<le> band_byte img width x y \<and> band_byte img width x y < 256"
  using getPixel_cases [of img width x y] getPixel_cases [of img width x "y + 1"]
    getPixel_cases [of img width x "y + 2"] getPixel_cases [of img width x "y + 3"]
    getPixel_cases [of img width x "y + 4"] getPixel_cases [of img width x "y + 5"]
    getPixel_cases [of img width x "y + 6"] getPixel_cases [of img width x "y + 7"]
  unfolding band_byte_def by linarith

lemma band_byte_mod: "band_byte img width x y mod 256 = band_byte img width x y"
  using band_byte_range [of img width x y] by simp

lemma or_shift_getPixel:
  "push_bit 7 (getPixel img width x y) OR push_bit 6 (getPixel img width x (y + 1)) OR
   push_bit 5 (getPixel img width x (y + 2)) OR push_bit 4 (getPixel img width x (y + 3)) OR
   push_bit 3 (getPixel img width x (y + 4)) OR push_bit 2 (getPixel img width x (y + 5)) OR
   push_bit 1 (getPixel img width x (y + 6)) OR getPixel img width x (y + 7)
   = band_byte img width x y"
  unfolding band_byte_def
  by (rule or_shift_bits) (rule getPixel_cases)+

lemma store_three:
  assumes "0 \<le> x" and "length pre = nat (x * 3)"
  shows "typed_array_set (typed_array_set (typed_array_set (pre @ 0 # 0 # 0 # rest)
            (x * 3) a) (x * 3 + 1) b) (x * 3 + 2) c
         = pre @ [a mod 256, b mod 256, c mod 256] @ rest"
proof -
  have n: "nat (x * 3 + 1) = length pre + 1" "nat (x * 3 + 2) = length pre + 2"
    using assms by simp_all
  have i: "x * 3 = int (length pre)" using assms by simp
  show ?thesis
    unfolding typed_array_set_def using assms(1)
    by (simp add: n list_update_append) (simp add: i)
qed

lemma column_loop_step:
  assumes "x < width"
  shows "column_loop img width y x bytes =
           column_loop img width y (x + 1)
             (typed_array_set (typed_array_set (typed_array_set bytes
                (x * 3) (band_byte img width x y))
                (x * 3 + 1) (band_byte img width x (y + 8)))
                (x * 3 + 2) (band_byte img width x (y + 16)))"
proof -
  have b1: "band_byte img width x (y + 8) =
    (push_bit 7 (getPixel img width x (y + 8)) OR push_bit 6 (getPixel img width x (y + 9)) OR
     push_bit 5 (getPixel img width x (y + 10)) OR push_bit 4 (getPixel img width x (y + 11)) OR
     push_bit 3 (getPixel img width x (y + 12)) OR push_bit 2 (getPixel img width x (y + 13)) OR
     push_bit 1 (getPixel img width x (y + 14)) OR getPixel img width x (y + 15))"
    using or_shift_getPixel [of img width x "y + 8"] by (simp add: add.assoc)
  have b2: "band_byte img width x (y + 16) =
    (push_bit 7 (getPixel img width x (y + 16)) OR push_bit 6 (getPixel img width x (y + 17)) OR
     push_bit 5 (getPixel img width x (y + 18)) OR push_bit 4 (getPixel img width x (y + 19)) OR
     push_bit 3 (getPixel img width x (y + 20)) OR push_bit 2 (getPixel img width x (y + 21)) OR
     push_bit 1 (getPixel img width x (y + 22)) OR getPixel img width x (y + 23))"
    using or_shift_getPixel [of img width x "y + 16"] by (simp add: add.assoc)
  have b0: "band_byte img width x y =
    (push_bit 7 (getPixel img width x (y + 0)) OR push_bit 6 (getPixel img width x (y + 1)) OR
     push_bit 5 (getPixel img width x (y + 2)) OR push_bit 4 (getPixel img width x (y + 3)) OR
     push_bit 3 (getPixel img width x (y + 4)) OR push_bit 2 (getPixel img width x (y + 5)) OR
     push_bit 1 (getPixel img width x (y + 6)) OR getPixel img width x (y + 7))"
    using or_shift_getPixel [of img width x y] by simp
  show ?thesis
    using assms
    by (subst column_loop.simps) (simp only: Let_def b0 b1 b2 if_True)
qed

lemma column_loop_done: "\<not> x < width \<Longrightarrow> column_loop img width y x bytes = bytes"
  by (subst column_loop.simps) simp

lemma column_loop_inv:
  assumes "0 \<le> x" and "x \<le> width" and "length pre = nat (x * 3)"
  shows "column_loop img width y x (pre @ replicate (nat ((width - x) * 3)) 0) =
           pre @ concat (map (\<lambda>k. band_column img width y (int k)) [nat x..<nat width])"
  using assms
proof (induction "nat (width - x)" arbitrary: x pre)
  case 0
  then have "x = width" by simp
  then show ?case by (simp add: column_loop_done)
next
  case (Suc n)
  then have lt: "x < width" by linarith
  have rep: "replicate (nat ((width - x) * 3)) (0::int) =
               0 # 0 # 0 # replicate (nat ((width - (x + 1)) * 3)) 0"
  proof -
    have "nat ((width - x) * 3) = Suc (Suc (Suc (nat ((width - (x + 1)) * 3))))"
      using lt by (simp add: nat_eq_iff algebra_simps)
    then show ?thesis by simp
  qed
  let ?col = "band_column img width y x"
  let ?rest = "replicate (nat ((width - (x + 1)) * 3)) (0::int)"
  have stored: "typed_array_set (typed_array_set (typed_array_set (pre @ 0 # 0 # 0 # ?rest)
                  (x * 3) (band_byte img width x y))
                  (x * 3 + 1) (band_byte img width x (y + 8)))
                  (x * 3 + 2) (band_byte img width x (y + 16))
                = (pre @ ?col) @ ?rest"
    by (simp only: store_three [OF Suc.prems(1,3)] band_byte_mod band_column_def append_assoc)
  have step: "column_loop img width y x (pre @ replicate (nat ((width - x) * 3)) 0) =
      column_loop img width y (x + 1) ((pre @ ?col) @ ?rest)"
    by (simp only: column_loop_step [OF lt] rep stored)
  have ih: "column_loop img width y (x + 1)
              ((pre @ ?col) @ replicate (nat ((width - (x + 1)) * 3)) 0) =
            (pre @ ?col) @ concat (map (\<lambda>k. band_column img width y (int k))
              [nat (x + 1)..<nat width])"
  proof (rule Suc.hyps(1))
    show "n = nat (width - (x + 1))" using Suc.hyps(2) by linarith
    show "0 \<le> x + 1" using Suc.prems(1) by simp
    show "x + 1 \<le> width" using lt by simp
    show "length (pre @ ?col) = nat ((x + 1) * 3)"
      using Suc.prems(1,3) by (simp add: band_column_def nat_add_distrib nat_mult_distrib)
  qed
  have upt: "[nat x..<nat width] = nat x # [nat (x + 1)..<nat width]"
    using lt Suc.prems(1) by (simp add: upt_conv_Cons nat_add_distrib)
  show ?case
    unfolding step ih upt using Suc.prems(1) by simp
qed

lemma column_loop_eq:
  assumes "0 \<le> width"
  shows "column_loop img width y 0 (replicate (nat (width * 3)) 0) =
           concat (map (\<lambda>k. band_column img width y (int k)) [0..<nat width])"
  using column_loop_inv [of 0 width "[]" img y] assms by simp

lemma band_cond: "(of_int s < (of_int height / 24 :: rat)) \<longleftrightarrow> 24 * s < height"
proof -
  have "(of_int s < (of_int height / 24 :: rat)) \<longleftrightarrow> (of_int (s * 24) < (of_int height :: rat))"
    by (simp add: pos_less_divide_eq)
  also have "\<dots> \<longleftrightarrow> s * 24 < height" by (simp only: of_int_less_iff)
  finally show ?thesis by (simp add: mult.commute)
qed

lemma band_loop_done:
  "\<not> 24 * s < height \<Longrightarrow> band_loop img width height s result = Inr result"
  by (subst band_loop.simps) (simp add: band_cond)


lemma band_loop_step:
  assumes "24 * s < height" and "0 \<le> width"
  shows "band_loop img width height s result =
           band_loop img width height (s + 1) (result @ band_command img width s)"
proof -
  have "column_loop img width (s * 24) 0 (replicate (nat (width * 3)) 0) =
          concat (map (\<lambda>k. band_column img width (24 * s) (int k)) [0..<nat width])"
    using column_loop_eq [OF assms(2), of img "s * 24"] by (simp add: mult.commute)
  then show ?thesis
    using assms
    by (subst band_loop.simps)
       (simp add: band_cond new_Uint8Array_def Let_def band_command_def and_0xff
          drop_bit_eq_div)
qed

lemma band_loop_eq:
  assumes "0 \<le> width" and "0 \<le> s"
  shows "band_loop img width height s result =
           Inr (result @ concat (map (\<lambda>k. band_command img width (int k))
                                   [nat s..<band_count height]))"
  using assms(2)
proof (induction "nat (height - 24 * s)" arbitrary: s result rule: less_induct)
  case less
  show ?case
  proof (cases "24 * s < height")
    case True
    have "nat (height - 24 * (s + 1)) < nat (height - 24 * s)"
      using True by (simp add: algebra_simps)
    then have ih: "band_loop img width height (s + 1) (result @ band_command img width s) =
        Inr ((result @ band_command img width s)
             @ concat (map (\<lambda>k. band_command img width (int k))
                         [nat (s + 1)..<band_count height]))"
      using less.prems by (intro less.hyps) simp_all
    have "s < (height + 23) div 24" using True by linarith
    then have "nat s < band_count height" using less.prems by (simp add: band_count_def)
    then have upt: "[nat s..<band_count height] = nat s # [nat (s + 1)..<band_count height]"
      using less.prems by (simp add: upt_conv_Cons nat_add_distrib)
    show ?thesis
      unfolding band_loop_step [OF True assms(1)] ih upt using less.prems by simp
  next
    case False
    then have "(height + 23) div 24 \<le> s" by linarith
    then have "band_count height \<le> nat s" by (simp add: band_count_def)
    then show ?thesis using False by (simp add: band_loop_done)
  qed
qed

lemma image_cmd_bands:
  assumes "0 \<le> width"
  shows "image_cmd img width height mode =
           Inr ([0x1b, 0x30]
                @ concat (map (\<lambda>s. band_command img width (int s)) [0..<band_count height])
                @ [0x1b, 0x7a, 0x01])"
  using band_loop_eq [OF assms, of 0 img height "[0x1b, 0x30]"]
  by (simp add: image_cmd_def)




lemma band_count_iff: "k < band_count height \<longleftrightarrow> 24 * int k < height"
  unfolding band_count_def by linarith

lemma band_byte_bit:
  assumes "j < 8"
  shows "bit (band_byte img width x y) (7 - j) \<longleftrightarrow> getPixel img width x (y + int j) = 1"
proof -
  have "j = 0 \<or> j = 1 \<or> j = 2 \<or> j = 3 \<or> j = 4 \<or> j = 5 \<or> j = 6 \<or> j = 7"
    using assms by linarith
  then show ?thesis
    using getPixel_cases [of img width x y] getPixel_cases [of img width x "y + 1"]
    getPixel_cases [of img width x "y + 2"] getPixel_cases [of img width x "y + 3"]
    getPixel_cases [of img width x "y + 4"] getPixel_cases [of img width x "y + 5"]
    getPixel_cases [of img width x "y + 6"] getPixel_cases [of img width x "y + 7"]
    unfolding band_byte_def
    by (elim disjE) (simp_all add: bit_numeral_simps)
qed

lemma getPixel_on_iff:
  "getPixel img width x y = 1 \<longleftrightarrow>
     typed_array_get (data img) (((width * y) + x) * 4) = Some 0"
  by (simp add: getPixel_def word_greater_zero_iff split: option.splits)

lemma getPixel_off_iff:
  "getPixel img width x y = 0 \<longleftrightarrow>
     typed_array_get (data img) (((width * y) + x) * 4) \<noteq> Some 0"
  by (simp add: getPixel_def word_greater_zero_iff split: option.splits)

lemma typed_array_get_None_iff:
  "typed_array_get a i = None \<longleftrightarrow> i < 0 \<or> int (length a) \<le> i"
  by (auto simp: typed_array_get_def)

lemma row_beyond_height:
  assumes "int (length (data img)) = width * height * 4" and "0 \<le> x" and "0 \<le> width" and "height \<le> y"
  shows "typed_array_get (data img) (((width * y) + x) * 4) = None"
proof -
  have "width * height \<le> width * y" using assms(3,4) by (rule mult_left_mono [rotated])
  then have "int (length (data img)) \<le> ((width * y) + x) * 4" using assms(1,2) by simp
  then show ?thesis by (simp add: typed_array_get_None_iff)
qed

text \<open>
  C1, as amended. \<open>getPixel\<close> is 1 (a dot is printed) or 0. It is 1 exactly when the
  index \<open>((width * y) + x) * 4\<close> lies inside \<open>image.data\<close> and the byte there, the red
  channel of the pixel, is 0. When the index lies outside the buffer (it is negative, or
  the length of the buffer or more) the pixel is 0, white: so are, for a buffer of
  \<open>width * height\<close> pixels, the rows from \<open>height\<close> on that the last band reaches when
  \<open>height\<close> is no multiple of 24.
\<close>

theorem getPixel_sampling:
  "(getPixel img width x y = 1 \<or> getPixel img width x y = 0)
   \<and> (getPixel img width x y = 1 \<longleftrightarrow>
        typed_array_get (data img) (((width * y) + x) * 4) = Some 0)
   \<and> (typed_array_get (data img) (((width * y) + x) * 4) = None \<longleftrightarrow>
        ((width * y) + x) * 4 < 0 \<or> int (length (data img)) \<le> ((width * y) + x) * 4)
   \<and> (typed_array_get (data img) (((width * y) + x) * 4) = None \<longrightarrow>
        getPixel img width x y = 0)
   \<and> (int (length (data img)) = width * height * 4 \<and> 0 \<le> x \<and> 0 \<le> width \<and> height \<le> y \<longrightarrow>
        getPixel img width x y = 0)"
proof -
  have none: "getPixel img width x y = 0"
    if "typed_array_get (data img) (((width * y) + x) * 4) = None"
    using that by (simp add: getPixel_def)
  have beyond: "getPixel img width x y = 0"
    if "int (length (data img)) = width * height * 4 \<and> 0 \<le> x \<and> 0 \<le> width \<and> height \<le> y"
    using that row_beyond_height [of img width height x y] none by blast
  have cases: "getPixel img width x y = 1 \<or> getPixel img width x y = 0"
    using getPixel_cases [of img width x y] by blast
  show ?thesis
    using none beyond cases getPixel_on_iff [of img width x y]
      typed_array_get_None_iff [of "data img" "((width * y) + x) * 4"]
    by blast
qed

theorem getPixel_sampling_witness:
  "typed_array_get (data \<lparr>data = [0, 0, 0, 255]\<rparr>) (((1 * 1) + 0) * 4) = None
   \<and> int (length (data \<lparr>data = [0, 0, 0, 255]\<rparr>)) = 1 * 1 * 4
   \<and> (0::int) \<le> 0 \<and> (0::int) \<le> 1 \<and> (1::int) \<le> 1
   \<and> getPixel \<lparr>data = [0, 0, 0, 255]\<rparr> 1 0 1 = 0
   \<and> getPixel \<lparr>data = [0, 0, 0, 255]\<rparr> 1 0 0 = 1"
  using getPixel_sampling [of "\<lparr>data = [0, 0, 0, 255]\<rparr>" 1 0 1 1]
    getPixel_sampling [of "\<lparr>data = [0, 0, 0, 255]\<rparr>" 1 0 0 1]
  by (simp add: typed_array_get_def)

text \<open>
  C1 as it is worded has every coordinate outside the buffer sampled as 1 (black). In a
  buffer of one black pixel, row 1 of column 0 is outside the buffer and is sampled as 0;
  the band of this image has the byte \<open>0x80\<close> followed by two bytes 0, not three bytes
  \<open>0xff\<close>.
\<close>

theorem getPixel_out_of_bounds_off:
  "typed_array_get (data \<lparr>data = [0, 0, 0, 255]\<rparr>) (((1 * 1) + 0) * 4) = None
   \<and> getPixel \<lparr>data = [0, 0, 0, 255]\<rparr> 1 0 1 \<noteq> 1
   \<and> image_cmd \<lparr>data = [0, 0, 0, 255]\<rparr> 1 1 (JStr ''column'') =
       Inr [0x1b, 0x30, 0x1b, 0x58, 1, 0, 0x80, 0x00, 0x00, 0x0a, 0x0d, 0x1b, 0x7a, 0x01]"
  by code_simp

text \<open>
  C6, as amended. For a width that is not negative, \<open>image\<close> returns the prologue, one
  sub-command for each band (one for each \<open>k\<close> from 0 with \<open>24 * k < height\<close>), and the
  terminating sub-command. The sub-command of band \<open>s\<close> is \<open>0x1b 0x58\<close>, the width in
  two bytes (low byte first), three bytes for each column \<open>x\<close> from 0 to \<open>width - 1\<close>,
  and then a line feed followed by a carriage return, \<open>0x0a 0x0d\<close>. The three bytes pack
  rows 0 to 7, 8 to 15 and 16 to 23 of the band: bit \<open>7 - j\<close> of a byte is set exactly when
  row \<open>j\<close> of its eight rows is sampled as 1, so the most significant bit is the topmost
  row. The buffer of one column and 24 black rows gives one band, whose three bytes are
  \<open>0xff\<close>.
\<close>

theorem image_band_packing:
  "(0 \<le> width \<longrightarrow>
      image_cmd img width height mode =
        Inr ([0x1b, 0x30]
             @ concat (map (\<lambda>s. band_command img width (int s)) [0..<band_count height])
             @ [0x1b, 0x7a, 0x01]))
   \<and> band_command img width s =
       [0x1b, 0x58, width mod 256, width div 256 mod 256]
       @ concat (map (\<lambda>x. [band_byte img width (int x) (24 * s),
                            band_byte img width (int x) (24 * s + 8),
                            band_byte img width (int x) (24 * s + 16)]) [0..<nat width])
       @ [0x0a, 0x0d]
   \<and> (j < 8 \<longrightarrow>
        (bit (band_byte img width x y) (7 - j) \<longleftrightarrow> getPixel img width x (y + int j) = 1))
   \<and> 0 \<le> band_byte img width x y \<and> band_byte img width x y < 256
   \<and> (k < band_count height \<longleftrightarrow> 24 * int k < height)
   \<and> band_count 24 = 1
   \<and> image_cmd black_1x24 1 24 mode =
       Inr [0x1b, 0x30, 0x1b, 0x58, 1, 0, 0xff, 0xff, 0xff, 0x0a, 0x0d, 0x1b, 0x7a, 0x01]"
proof -
  have black: "image_cmd black_1x24 1 24 mode =
       Inr [0x1b, 0x30, 0x1b, 0x58, 1, 0, 0xff, 0xff, 0xff, 0x0a, 0x0d, 0x1b, 0x7a, 0x01]"
    by code_simp
  show ?thesis
    using image_cmd_bands [of width img height mode] band_byte_bit [of j img width x y]
      band_byte_range [of img width x y] black band_count_iff [of k height]
    by (simp add: band_command_def band_column_def) (simp add: band_count_def)
qed

theorem image_band_packing_witness:
  "(0::int) \<le> 2 \<and> (3::nat) < 8
   \<and> image_cmd \<lparr>data = [0, 0, 0, 255, 9, 9, 9, 255]\<rparr> 2 1 (JStr ''column'') =
       Inr [0x1b, 0x30, 0x1b, 0x58, 2, 0, 0x80, 0, 0, 0, 0, 0, 0x0a, 0x0d, 0x1b, 0x7a, 0x01]
   \<and> bit (band_byte \<lparr>data = [0, 0, 0, 255, 9, 9, 9, 255]\<rparr> 2 0 (- 3)) (7 - 3)"
proof -
  have "getPixel \<lparr>data = [0, 0, 0, 255, 9, 9, 9, 255]\<rparr> 2 0 (- 3 + int 3) = 1"
    by code_simp
  moreover have "image_cmd \<lparr>data = [0, 0, 0, 255, 9, 9, 9, 255]\<rparr> 2 1 (JStr ''column'') =
       Inr [0x1b, 0x30, 0x1b, 0x58, 2, 0, 0x80, 0, 0, 0, 0, 0, 0x0a, 0x0d, 0x1b, 0x7a, 0x01]"
    by code_simp
  ultimately show ?thesis
    using image_band_packing [of 2 "\<lparr>data = [0, 0, 0, 255, 9, 9, 9, 255]\<rparr>" 1 "JStr ''column''"
        0 3 0 "- 3"]
    by simp
qed

text \<open>
  C6 as it is worded ends each band with a carriage return followed by a line feed,
  \<open>0x0d 0x0a\<close>. For the buffer of one column and 24 black rows the array returned has
  \<open>0x0a 0x0d\<close> after the three packed bytes, the line feed first, and differs from the
  array with the two bytes in the order of the claim.
\<close>

theorem image_band_ends_lf_cr:
  "image_cmd black_1x24 1 24 (JStr ''column'') =
     Inr [0x1b, 0x30, 0x1b, 0x58, 1, 0, 0xff, 0xff, 0xff, 0x0a, 0x0d, 0x1b, 0x7a, 0x01]
   \<and> image_cmd black_1x24 1 24 (JStr ''column'') \<noteq>
     Inr [0x1b, 0x30, 0x1b, 0x58, 1, 0, 0xff, 0xff, 0xff, 0x0d, 0x0a, 0x1b, 0x7a, 0x01]"
  by code_simp




end
